theory Spec2Isabelle
  imports Complex_Main "HOL-Library.AList"
begin

section \<open>Python values and exceptions\<close>

text \<open>
  The service (\<^verbatim>\<open>app.py\<close>) receives a photograph of an abacus, builds a sprite of
  the right-hand side of ten rows, sends both to a hosted model and normalises the
  model's JSON reply into ten counts. This theory embeds the pure parts of that file:
  the counts normalisation, the reply parsing, the sprite geometry and the file
  lifecycle of the request handler.

  Text is a list of characters; a character stands for a code point below 256.
  A Python \<^verbatim>\<open>float\<close> is an IEEE binary64 value: a rational (the exact value it
  holds), an infinity or a NaN. The sign of zero is not kept: no function of this file
  reads it.
\<close>

datatype pyfloat = Fin rat | PosInf | NegInf | NaN

text \<open>The objects \<^verbatim>\<open>json.loads\<close> produces. A \<^verbatim>\<open>dict\<close> keeps its keys in insertion order.\<close>

datatype json =
    JNull
  | JBool bool
  | JInt int
  | JFloat pyfloat
  | JStr string
  | JArr "json list"
  | JObj "(string \<times> json) list"

text \<open>
  The exceptions the modelled code can meet. All of them derive from
  \<^verbatim>\<open>Exception\<close>, so an \<^verbatim>\<open>except Exception\<close> clause catches each.
\<close>

datatype exn =
    TypeError
  | ValueError
  | OverflowError
  | AttributeError
  | JSONDecodeError
  | RecursionError
  | OSError
  | OtherError string

subsection \<open>Dictionaries\<close>

text \<open>\<^verbatim>\<open>d.get(k, default)\<close> and \<^verbatim>\<open>d[k] = v\<close> on an insertion-ordered dictionary.\<close>

definition dict_get :: "(string \<times> 'v) list \<Rightarrow> string \<Rightarrow> 'v \<Rightarrow> 'v" where
  "dict_get d k dflt = (case map_of d k of None \<Rightarrow> dflt | Some v \<Rightarrow> v)"

definition dict_set :: "(string \<times> 'v) list \<Rightarrow> string \<Rightarrow> 'v \<Rightarrow> (string \<times> 'v) list" where
  "dict_set d k v = AList.update k v d"

subsection \<open>Whitespace and \<^verbatim>\<open>str.strip\<close>\<close>

text \<open>
  \<^verbatim>\<open>str.isspace\<close> on the code points below 256: TAB, LF, VT, FF, CR, the four
  separators 0x1C..0x1F, SPACE, NEL (0x85) and NBSP (0xA0).
\<close>

definition is_space :: "char \<Rightarrow> bool" where
  "is_space c = (of_char c \<in> {9, 10, 11, 12, 13, 28, 29, 30, 31, 32, 133, 160 :: nat})"

definition strip :: "string \<Rightarrow> string" where
  "strip s = rev (dropWhile is_space (rev (dropWhile is_space s)))"

subsection \<open>\<^verbatim>\<open>int(v)\<close>\<close>

definition is_digit :: "char \<Rightarrow> bool" where
  "is_digit c = (48 \<le> (of_char c :: nat) \<and> (of_char c :: nat) \<le> 57)"

definition digit_val :: "char \<Rightarrow> int" where
  "digit_val c = int (of_char c) - 48"

text \<open>
  The digits of a decimal literal after its first digit; a single underscore may stand
  between two digits (\<^verbatim>\<open>int("1_000") == 1000\<close>).
\<close>

fun int_digits :: "int \<Rightarrow> string \<Rightarrow> int option" where
  "int_digits acc [] = Some acc"
| "int_digits acc [c] = (if is_digit c then Some (10 * acc + digit_val c) else None)"
| "int_digits acc (c # d # ds) =
     (if is_digit c then int_digits (10 * acc + digit_val c) (d # ds)
      else if c = CHR ''_'' \<and> is_digit d then int_digits (10 * acc + digit_val d) ds
      else None)"

text \<open>
  \<^verbatim>\<open>int(s)\<close> for a string, base 10: surrounding whitespace is dropped, one sign is
  allowed, then at least one digit. \<open>None\<close> stands for \<^verbatim>\<open>ValueError\<close>.
  (CPython 3.11 and later also refuse literals of more than 4300 digits; that limit is
  configurable and is not modelled.)
\<close>

definition int_of_str :: "string \<Rightarrow> int option" where
  "int_of_str s =
     (let t = strip s;
          neg = (t \<noteq> [] \<and> hd t = CHR ''-'');
          u = (if t \<noteq> [] \<and> (hd t = CHR ''-'' \<or> hd t = CHR ''+'') then tl t else t)
      in case u of
           [] \<Rightarrow> None
         | c # cs \<Rightarrow>
             if is_digit c
             then map_option (\<lambda>n. if neg then - n else n) (int_digits (digit_val c) cs)
             else None)"

text \<open>\<^verbatim>\<open>int(x)\<close> on a float truncates towards zero.\<close>

definition trunc :: "rat \<Rightarrow> int" where
  "trunc q = (if 0 \<le> q then \<lfloor>q\<rfloor> else \<lceil>q\<rceil>)"

fun py_int :: "json \<Rightarrow> exn + int" where
  "py_int JNull = Inl TypeError"
| "py_int (JBool b) = Inr (if b then 1 else 0)"
| "py_int (JInt n) = Inr n"
| "py_int (JFloat (Fin q)) = Inr (trunc q)"
| "py_int (JFloat NaN) = Inl ValueError"
| "py_int (JFloat PosInf) = Inl OverflowError"
| "py_int (JFloat NegInf) = Inl OverflowError"
| "py_int (JStr s) = (case int_of_str s of None \<Rightarrow> Inl ValueError | Some n \<Rightarrow> Inr n)"
| "py_int (JArr xs) = Inl TypeError"
| "py_int (JObj d) = Inl TypeError"

section \<open>Counts normalisation\<close>

definition LINES :: "string list" where
  "LINES = [''aerosaculite'', ''celulite'', ''contusao'', ''hematomas'', ''hepatite'',
            ''micoplasmose'', ''pericardite'', ''peritonite'', ''salmonelose'', ''tuberculose'']"

text \<open>
  The body of the loop of \<^verbatim>\<open>normalize_counts_map\<close>, for one label:
  \<^verbatim>\<open>v = raw.get(k, 0)\<close>, then \<^verbatim>\<open>int(v)\<close> with 0 on any exception, then
  \<^verbatim>\<open>max(0, min(10, v))\<close>.
\<close>

definition normalize_value :: "(string \<times> json) list \<Rightarrow> string \<Rightarrow> int" where
  "normalize_value raw k =
     (let v = dict_get raw k (JInt 0);
          n = (case py_int v of Inl e \<Rightarrow> 0 | Inr i \<Rightarrow> i)
      in max 0 (min 10 n))"

definition normalize_counts_map :: "(string \<times> json) list \<Rightarrow> (string \<times> int) list" where
  "normalize_counts_map raw =
     foldl (\<lambda>out k. dict_set out k (normalize_value raw k)) [] LINES"

text \<open>The schema of a reply's \<^verbatim>\<open>contagem\<close> object: exactly the ten labels, each an integer in 0..10.\<close>

fun valid_count :: "json \<Rightarrow> bool" where
  "valid_count (JInt n) = (0 \<le> n \<and> n \<le> 10)"
| "valid_count v = False"

definition schema_ok :: "(string \<times> json) list \<Rightarrow> bool" where
  "schema_ok raw \<longleftrightarrow>
     distinct (map fst raw) \<and> set (map fst raw) = set LINES \<and>
     list_all (\<lambda>(k, v). valid_count v) raw"

text \<open>The counts as the JSON object the response carries.\<close>

definition counts_to_json :: "(string \<times> int) list \<Rightarrow> (string \<times> json) list" where
  "counts_to_json out = map (\<lambda>(k, n). (k, JInt n)) out"


section \<open>Binary64 arithmetic\<close>

text \<open>
  The sprite geometry multiplies image sizes by float constants and truncates. The
  operations below are IEEE 754 binary64 with round-to-nearest, ties-to-even, on the
  exact rational values: a result is the nearest multiple of the unit in the last place
  of its binade (subnormals included). Overflow to infinity is left to \<open>py_float\<close>;
  the geometry stays far below it, since image sizes are C \<^verbatim>\<open>int\<close>s in Pillow.
\<close>

definition round_half_even :: "rat \<Rightarrow> int" where
  "round_half_even x =
     (let f = \<lfloor>x\<rfloor>; d = x - of_int f
      in if d < 1 / 2 then f else if 1 / 2 < d then f + 1 else if even f then f else f + 1)"

definition pow2 :: "int \<Rightarrow> rat" where
  "pow2 e = (if 0 \<le> e then 2 ^ nat e else 1 / 2 ^ nat (- e))"

text \<open>The number of binary digits of a positive integer (\<^verbatim>\<open>int.bit_length\<close>); 0 otherwise.\<close>

function bit_length :: "int \<Rightarrow> int" where
  "bit_length n = (if n \<le> 0 then 0 else 1 + bit_length (n div 2))"
  by pat_completeness auto
termination
  by (relation "measure nat") auto

declare bit_length.simps [simp del]

text \<open>\<open>ilog2 x\<close> is the binary exponent of a positive \<open>x\<close>: \<open>2 ^ ilog2 x \<le> x < 2 ^ (ilog2 x + 1)\<close>.\<close>

definition ilog2 :: "rat \<Rightarrow> int" where
  "ilog2 x =
     (if 1 \<le> x then bit_length \<lfloor>x\<rfloor> - 1
      else - bit_length (\<lceil>1 / x\<rceil> - 1))"

definition fl :: "rat \<Rightarrow> rat" where
  "fl x =
     (if x = 0 then 0
      else let e = max (ilog2 \<bar>x\<bar>) (- 1022); u = pow2 (e - 52)
           in of_int (round_half_even (x / u)) * u)"

definition py_float :: "rat \<Rightarrow> pyfloat" where
  "py_float x =
     (let r = fl x
      in if 2 ^ 1024 \<le> r then PosInf else if r \<le> - (2 ^ 1024) then NegInf else Fin r)"

definition float_of_int :: "int \<Rightarrow> rat" where
  "float_of_int n = fl (of_int n)"

definition fmul :: "rat \<Rightarrow> rat \<Rightarrow> rat" where
  "fmul a b = fl (a * b)"

definition fsub :: "rat \<Rightarrow> rat \<Rightarrow> rat" where
  "fsub a b = fl (a - b)"

section \<open>Sprite geometry\<close>

definition TOP_RATIO :: rat where
  "TOP_RATIO = fl (8 / 100)"

definition BOTTOM_RATIO :: rat where
  "BOTTOM_RATIO = fl (8 / 100)"

definition CENTER_SHIFT_PCT :: rat where
  "CENTER_SHIFT_PCT = fl (35 / 1000)"

definition RIGHT_FRACTION :: rat where
  "RIGHT_FRACTION = fl (55 / 100)"

text \<open>
  One row of the sprite: the band \<^verbatim>\<open>im.crop((0, y1, w, y2))\<close> and, inside it, the
  right-hand crop \<^verbatim>\<open>band.crop((right_x0, 0, w, band.height))\<close>. A box is
  (left, upper, right, lower).
\<close>

record band =
  y1 :: int
  y2 :: int
  center_x :: int
  right_x0 :: int
  band_box :: "int \<times> int \<times> int \<times> int"
  right_box :: "int \<times> int \<times> int \<times> int"

record sprite_geometry =
  top :: int
  bot :: int
  usable_h :: int
  band_h :: int
  bands :: "band list"

text \<open>The margins before the size check: \<^verbatim>\<open>int(h * TOP_RATIO)\<close> and \<^verbatim>\<open>int(h * (1 - BOTTOM_RATIO))\<close>.\<close>

definition trimmed_top :: "int \<Rightarrow> int" where
  "trimmed_top h = trunc (fmul (float_of_int h) TOP_RATIO)"

definition trimmed_bot :: "int \<Rightarrow> int" where
  "trimmed_bot h = trunc (fmul (float_of_int h) (fsub (float_of_int 1) BOTTOM_RATIO))"

text \<open>The body of the loop of \<^verbatim>\<open>build_right_only_sprite\<close> for row \<open>i\<close> (0..9), up to the crop.\<close>

definition row_band :: "int \<Rightarrow> int \<Rightarrow> int \<Rightarrow> int \<Rightarrow> int \<Rightarrow> band" where
  "row_band w tp bt bh i =
     (let y1 = tp + i * bh;
          y2 = (if i = 9 then bt else y1 + bh);
          cx0 = trunc (fmul (float_of_int w) (fsub (fl (1 / 2)) CENTER_SHIFT_PCT));
          cx = max 0 (min (w - 1) cx0);
          rx0 = max 0 (w - trunc (fmul (float_of_int w) RIGHT_FRACTION));
          rx = min rx0 cx
      in \<lparr>y1 = y1, y2 = y2, center_x = cx, right_x0 = rx,
          band_box = (0, y1, w, y2), right_box = (rx, 0, w, y2 - y1)\<rparr>)"

text \<open>
  The geometry \<^verbatim>\<open>build_right_only_sprite\<close> computes for an image of size \<open>w \<times> h\<close>.
  The pixel operations (zoom, enhancement, resize, paste) do not change it.
\<close>

definition build_right_only_sprite :: "int \<Rightarrow> int \<Rightarrow> sprite_geometry" where
  "build_right_only_sprite w h =
     (let top0 = trimmed_top h;
          bot0 = trimmed_bot h;
          tp = (if bot0 \<le> top0 + 10 then 0 else top0);
          bt = (if bot0 \<le> top0 + 10 then h else bot0);
          uh = bt - tp;
          bh = max 1 (uh div 10)
      in \<lparr>top = tp, bot = bt, usable_h = uh, band_h = bh,
          bands = map (row_band w tp bt bh) [0..9]\<rparr>)"

section \<open>Reply parsing\<close>

subsection \<open>\<^verbatim>\<open>str.replace\<close> and \<^verbatim>\<open>re.search\<close>\<close>

definition startswith :: "string \<Rightarrow> string \<Rightarrow> bool" where
  "startswith s p = (take (length p) s = p)"

text \<open>
  \<^verbatim>\<open>s.replace(old, new)\<close> for a non-empty \<open>old\<close> (both call sites pass a literal):
  the occurrences are taken from the left and do not overlap.
\<close>

fun replace :: "string \<Rightarrow> string \<Rightarrow> string \<Rightarrow> string" where
  "replace [] old new = []"
| "replace (c # cs) old new =
     (if old \<noteq> [] \<and> startswith (c # cs) old
      then new @ replace (drop (length old - 1) cs) old new
      else c # replace cs old new)"

text \<open>
  \<^verbatim>\<open>re.search(r"\{[\s\S]*\}", text)\<close>: the class \<^verbatim>\<open>[\s\S]\<close> takes every character and
  the star is greedy, so the match runs from the first \<^verbatim>\<open>{\<close> that has a \<^verbatim>\<open>}\<close> after it
  to the last \<^verbatim>\<open>}\<close> of the text. If the first brace has none after it, no later one has.
\<close>

definition re_search_braces :: "string \<Rightarrow> string option" where
  "re_search_braces text =
     (let rest = dropWhile (\<lambda>c. c \<noteq> CHR ''{'') text
      in if CHR ''}'' \<in> set rest
         then Some (rev (dropWhile (\<lambda>c. c \<noteq> CHR ''}'') (rev rest)))
         else None)"

subsection \<open>\<^verbatim>\<open>json.loads\<close>\<close>

text \<open>
  A model of the standard library's decoder with its default options: the JSON grammar
  with the four whitespace characters, strict strings (no raw control character), the
  literals \<^verbatim>\<open>NaN\<close>, \<^verbatim>\<open>Infinity\<close> and \<^verbatim>\<open>-Infinity\<close>, integers of any size, floats
  rounded to binary64, and \<^verbatim>\<open>dict\<close> semantics for repeated keys. An escape
  \<^verbatim>\<open>\uXXXX\<close> above 255 has no counterpart in this theory's characters and is reported
  as \<open>OtherError\<close>. The fuel covers every input (each call consumes a character or is
  followed by one that does); the interpreter's own recursion limit is not modelled.
\<close>

definition json_ws :: "char \<Rightarrow> bool" where
  "json_ws c = (c = CHR '' '' \<or> c = CHR 0x09 \<or> c = CHR 0x0A \<or> c = CHR 0x0D)"

definition skip_ws :: "string \<Rightarrow> string" where
  "skip_ws s = dropWhile json_ws s"

definition hex_val :: "char \<Rightarrow> nat option" where
  "hex_val c =
     (let n = (of_char c :: nat)
      in if 48 \<le> n \<and> n \<le> 57 then Some (n - 48)
         else if 97 \<le> n \<and> n \<le> 102 then Some (n - 87)
         else if 65 \<le> n \<and> n \<le> 70 then Some (n - 55)
         else None)"

definition hex4 :: "string \<Rightarrow> nat option" where
  "hex4 s =
     (case map hex_val (take 4 s) of
        [Some a, Some b, Some c, Some d] \<Rightarrow> Some (((a * 16 + b) * 16 + c) * 16 + d)
      | _ \<Rightarrow> None)"

definition unescape :: "char \<Rightarrow> char option" where
  "unescape e =
     (if e = CHR 0x22 \<or> e = CHR 0x5C \<or> e = CHR ''/'' then Some e
      else if e = CHR ''b'' then Some (CHR 0x08)
      else if e = CHR ''f'' then Some (CHR 0x0C)
      else if e = CHR ''n'' then Some (CHR 0x0A)
      else if e = CHR ''r'' then Some (CHR 0x0D)
      else if e = CHR ''t'' then Some (CHR 0x09)
      else None)"

text \<open>The characters of a string after its opening quote, and what follows the closing one.\<close>

fun scanstring :: "string \<Rightarrow> string \<Rightarrow> exn + (string \<times> string)" where
  "scanstring acc [] = Inl JSONDecodeError"
| "scanstring acc (c # cs) =
     (if c = CHR 0x22 then Inr (rev acc, cs)
      else if c = CHR 0x5C then
        (case cs of
           [] \<Rightarrow> Inl JSONDecodeError
         | e # es \<Rightarrow>
             if e = CHR ''u'' then
               (case hex4 es of
                  None \<Rightarrow> Inl JSONDecodeError
                | Some n \<Rightarrow>
                    if n < 256 then scanstring (char_of n # acc) (drop 4 es)
                    else Inl (OtherError ''code point above 255''))
             else
               (case unescape e of
                  None \<Rightarrow> Inl JSONDecodeError
                | Some x \<Rightarrow> scanstring (x # acc) es))
      else if (of_char c :: nat) < 32 then Inl JSONDecodeError
      else scanstring (c # acc) cs)"

definition int_of_digits :: "string \<Rightarrow> int" where
  "int_of_digits ds = foldl (\<lambda>a c. 10 * a + digit_val c) 0 ds"

definition pow10 :: "int \<Rightarrow> rat" where
  "pow10 e = (if 0 \<le> e then 10 ^ nat e else 1 / 10 ^ nat (- e))"

text \<open>The exponent part \<^verbatim>\<open>[eE][-+]?\d+\<close>, if there is a whole one.\<close>

definition match_exponent :: "string \<Rightarrow> (int \<times> string) option" where
  "match_exponent s =
     (case s of
        [] \<Rightarrow> None
      | e # r \<Rightarrow>
          if e \<noteq> CHR ''e'' \<and> e \<noteq> CHR ''E'' then None
          else
            let sgn = (r \<noteq> [] \<and> (hd r = CHR ''-'' \<or> hd r = CHR ''+''));
                r1 = (if sgn then tl r else r);
                ds = takeWhile is_digit r1
            in if ds = [] then None
               else Some ((if r \<noteq> [] \<and> hd r = CHR ''-'' then - 1 else 1) * int_of_digits ds,
                          dropWhile is_digit r1))"

text \<open>
  \<^verbatim>\<open>NUMBER_RE = (-?(?:0|[1-9]\d*))(\.\d+)?([eE][-+]?\d+)?\<close> at the head of the text.
  With a fraction or an exponent the literal is a float, otherwise an integer.
\<close>

definition match_number :: "string \<Rightarrow> (json \<times> string) option" where
  "match_number s =
     (let neg = (s \<noteq> [] \<and> hd s = CHR ''-'');
          s1 = (if neg then tl s else s)
      in case s1 of
           [] \<Rightarrow> None
         | c # r \<Rightarrow>
             if \<not> is_digit c then None
             else
               let ip = (if c = CHR ''0'' then [c] else c # takeWhile is_digit r);
                   s2 = (if c = CHR ''0'' then r else dropWhile is_digit r);
                   has_frac = (case s2 of d # f # t \<Rightarrow> d = CHR ''.'' \<and> is_digit f | _ \<Rightarrow> False);
                   fr = (if has_frac then takeWhile is_digit (tl s2) else []);
                   s3 = (if has_frac then dropWhile is_digit (tl s2) else s2);
                   ex = match_exponent s3;
                   s4 = (case ex of None \<Rightarrow> s3 | Some (n, t) \<Rightarrow> t);
                   sign = (if neg then - 1 else 1)
               in if has_frac \<or> ex \<noteq> None
                  then Some (JFloat (py_float (of_int (sign * int_of_digits (ip @ fr))
                               * pow10 ((case ex of None \<Rightarrow> 0 | Some (n, t) \<Rightarrow> n) - int (length fr)))),
                             s4)
                  else Some (JInt (sign * int_of_digits ip), s4))"

text \<open>\<^verbatim>\<open>dict(pairs)\<close>: a repeated key keeps its first place and its last value.\<close>

definition dict_of_pairs :: "(string \<times> 'v) list \<Rightarrow> (string \<times> 'v) list" where
  "dict_of_pairs ps = foldl (\<lambda>d (k, v). dict_set d k v) [] ps"

text \<open>
  \<open>scan_once\<close> reads one value; \<open>JSONArray\<close> and \<open>JSONObject\<close> read the items of an
  array and the pairs of an object, from the first one on, with the ones read so far.
\<close>

fun scan_once :: "nat \<Rightarrow> string \<Rightarrow> exn + (json \<times> string)"
  and JSONArray :: "nat \<Rightarrow> json list \<Rightarrow> string \<Rightarrow> exn + (json \<times> string)"
  and JSONObject :: "nat \<Rightarrow> (string \<times> json) list \<Rightarrow> string \<Rightarrow> exn + (json \<times> string)"
where
  "scan_once 0 s = Inl RecursionError"
| "scan_once (Suc n) s =
     (case s of
        [] \<Rightarrow> Inl JSONDecodeError
      | c # cs \<Rightarrow>
          if c = CHR 0x22 then
            (case scanstring [] cs of
               Inl e \<Rightarrow> Inl e
             | Inr (str, rest) \<Rightarrow> Inr (JStr str, rest))
          else if c = CHR ''{'' then
            (case skip_ws cs of
               [] \<Rightarrow> Inl JSONDecodeError
             | d # ds \<Rightarrow> if d = CHR ''}'' then Inr (JObj [], ds) else JSONObject n [] (d # ds))
          else if c = CHR ''['' then
            (case skip_ws cs of
               [] \<Rightarrow> Inl JSONDecodeError
             | d # ds \<Rightarrow> if d = CHR '']'' then Inr (JArr [], ds) else JSONArray n [] (d # ds))
          else if startswith s ''null'' then Inr (JNull, drop 4 s)
          else if startswith s ''true'' then Inr (JBool True, drop 4 s)
          else if startswith s ''false'' then Inr (JBool False, drop 5 s)
          else
            (case match_number s of
               Some r \<Rightarrow> Inr r
             | None \<Rightarrow>
                 if startswith s ''NaN'' then Inr (JFloat NaN, drop 3 s)
                 else if startswith s ''Infinity'' then Inr (JFloat PosInf, drop 8 s)
                 else if startswith s ''-Infinity'' then Inr (JFloat NegInf, drop 9 s)
                 else Inl JSONDecodeError))"
| "JSONArray 0 acc s = Inl RecursionError"
| "JSONArray (Suc n) acc s =
     (case scan_once n s of
        Inl e \<Rightarrow> Inl e
      | Inr (v, rest) \<Rightarrow>
          (case skip_ws rest of
             [] \<Rightarrow> Inl JSONDecodeError
           | c # cs \<Rightarrow>
               if c = CHR '']'' then Inr (JArr (rev (v # acc)), cs)
               else if c = CHR '','' then JSONArray n (v # acc) (skip_ws cs)
               else Inl JSONDecodeError))"
| "JSONObject 0 acc s = Inl RecursionError"
| "JSONObject (Suc n) acc s =
     (case s of
        [] \<Rightarrow> Inl JSONDecodeError
      | q # qs \<Rightarrow>
          if q \<noteq> CHR 0x22 then Inl JSONDecodeError
          else
            (case scanstring [] qs of
               Inl e \<Rightarrow> Inl e
             | Inr (key, r1) \<Rightarrow>
                 (case skip_ws r1 of
                    [] \<Rightarrow> Inl JSONDecodeError
                  | c # r2 \<Rightarrow>
                      if c \<noteq> CHR '':'' then Inl JSONDecodeError
                      else
                        (case scan_once n (skip_ws r2) of
                           Inl e \<Rightarrow> Inl e
                         | Inr (v, r3) \<Rightarrow>
                             (case skip_ws r3 of
                                [] \<Rightarrow> Inl JSONDecodeError
                              | d # r4 \<Rightarrow>
                                  if d = CHR ''}''
                                  then Inr (JObj (dict_of_pairs (rev ((key, v) # acc))), r4)
                                  else if d = CHR '',''
                                  then JSONObject n ((key, v) # acc) (skip_ws r4)
                                  else Inl JSONDecodeError)))))"

definition json_loads :: "string \<Rightarrow> exn + json" where
  "json_loads s =
     (case scan_once (2 * length s + 2) (skip_ws s) of
        Inl e \<Rightarrow> Inl e
      | Inr (v, rest) \<Rightarrow> if skip_ws rest = [] then Inr v else Inl JSONDecodeError)"

subsection \<open>\<^verbatim>\<open>parse_json_safely\<close> and \<^verbatim>\<open>gemini_generate_json\<close>\<close>

text \<open>
  The first two lines of \<^verbatim>\<open>parse_json_safely\<close>: \<^verbatim>\<open>(text or "").strip()\<close>, then the
  two fence markers removed and another \<^verbatim>\<open>strip\<close>. \<open>None\<close> is Python's \<^verbatim>\<open>None\<close>.
\<close>

definition clean_text :: "string option \<Rightarrow> string" where
  "clean_text text =
     (let t = strip (case text of None \<Rightarrow> [] | Some s \<Rightarrow> s)
      in strip (replace (replace t ''```json'' []) ''```'' []))"

text \<open>
  The decoder is a parameter: \<^verbatim>\<open>json.loads\<close> is library code, and the function does
  not depend on what it accepts. \<open>Inl\<close> is a raised exception; each \<^verbatim>\<open>except Exception\<close>
  of the source is the \<open>Inl\<close> branch of a case.
\<close>

definition parse_json_safely :: "(string \<Rightarrow> exn + json) \<Rightarrow> string option \<Rightarrow> exn + json" where
  "parse_json_safely loads text =
     (let t = clean_text text
      in case loads t of
           Inr v \<Rightarrow> Inr v
         | Inl e \<Rightarrow>
             (case re_search_braces t of
                Some m \<Rightarrow> (case loads m of Inr v \<Rightarrow> Inr v | Inl e' \<Rightarrow> Inr (JObj []))
              | None \<Rightarrow> Inr (JObj [])))"

fun is_dict :: "json \<Rightarrow> bool" where
  "is_dict (JObj d) = True"
| "is_dict v = False"

text \<open>
  \<^verbatim>\<open>gemini_generate_json\<close> from the response on: \<open>resp_text\<close> is \<^verbatim>\<open>resp.text\<close>. The call
  to the hosted model that produces it belongs to the request handler below.
\<close>

definition gemini_generate_json :: "(string \<Rightarrow> exn + json) \<Rightarrow> string option \<Rightarrow> exn + json" where
  "gemini_generate_json loads resp_text =
     (let text = strip (case resp_text of None \<Rightarrow> [] | Some s \<Rightarrow> s)
      in case parse_json_safely loads (Some text) of
           Inl e \<Rightarrow> Inl e
         | Inr data \<Rightarrow> Inr (if is_dict data then data else JObj [(''_raw'', JStr text)]))"

text \<open>
  The two lines of \<^verbatim>\<open>api_contar\<close> after the model call:
  \<^verbatim>\<open>contagem = result.get("contagem", {})\<close> and \<^verbatim>\<open>normalize_counts_map(contagem)\<close>.
  \<open>result\<close> is a dictionary; a \<^verbatim>\<open>contagem\<close> that is not one has no \<^verbatim>\<open>get\<close>.
\<close>

definition counts_of_result :: "json \<Rightarrow> exn + (string \<times> int) list" where
  "counts_of_result result =
     (case result of
        JObj d \<Rightarrow>
          (case dict_get d ''contagem'' (JObj []) of
             JObj contagem \<Rightarrow> Inr (normalize_counts_map contagem)
           | _ \<Rightarrow> Inl AttributeError)
      | _ \<Rightarrow> Inl AttributeError)"

section \<open>The request handler and its files\<close>

text \<open>
  The state a request changes: the files of the upload folder and the files held by the
  model's file store. Everything the handler cannot decide by itself is in \<open>env\<close>: the
  random parts of the file names, and which of the outside calls raise.
\<close>

record world =
  local_files :: "string list"
  remote_files :: "string list"

record env =
  secure_filename :: "string \<Rightarrow> string"
  uid :: string
  crop_uid :: "nat \<Rightarrow> string"
  sprite_uid :: string
  save_raises :: bool
  image_size :: "(int \<times> int) option"
  sprite_raises_at :: "nat option"
  upload_name :: "string \<Rightarrow> string option"
  reply :: "exn + string option"
  delete_file_raises :: "string \<Rightarrow> bool"
  remove_raises :: "string \<Rightarrow> bool"

text \<open>
  \<open>image_size = None\<close>: \<^verbatim>\<open>Image.open(path).convert("RGB")\<close> raises.
  \<open>sprite_raises_at = Some i\<close>: Pillow raises while row \<open>i\<close> is built, before its file
  is written (\<open>i = 10\<close>: while the sprite itself is saved).
  \<open>upload_name p = None\<close>: \<^verbatim>\<open>genai.upload_file(p)\<close> raises.
  \<open>reply = Inl e\<close>: \<^verbatim>\<open>generate_content\<close> raises \<open>e\<close> (a timeout, say); otherwise it is
  \<^verbatim>\<open>resp.text\<close>.
\<close>

datatype request = NoImage | Image string

datatype response =
    Response200 "(string \<times> int) list" json
  | Response400 string
  | Response500 exn

definition create_file :: "string \<Rightarrow> world \<Rightarrow> world" where
  "create_file p w = w\<lparr>local_files := (if p \<in> set (local_files w) then local_files w else local_files w @ [p])\<rparr>"

text \<open>\<^verbatim>\<open>try: os.remove(p) except Exception: pass\<close>\<close>

definition os_remove :: "env \<Rightarrow> world \<Rightarrow> string \<Rightarrow> world" where
  "os_remove env w p =
     (if remove_raises env p \<or> p \<notin> set (local_files w) then w
      else w\<lparr>local_files := removeAll p (local_files w)\<rparr>)"

text \<open>\<^verbatim>\<open>try: genai.delete_file(up.name) except Exception: pass\<close>\<close>

definition delete_file :: "env \<Rightarrow> world \<Rightarrow> string \<Rightarrow> world" where
  "delete_file env w n =
     (if delete_file_raises env n \<or> n \<notin> set (remote_files w) then w
      else w\<lparr>remote_files := removeAll n (remote_files w)\<rparr>)"

definition save_uploaded_file :: "env \<Rightarrow> string \<Rightarrow> world \<Rightarrow> (exn + string \<times> string) \<times> world" where
  "save_uploaded_file env filename w =
     (let fname = uid env @ ''_'' @ secure_filename env filename;
          path = ''uploads/'' @ fname
      in if save_raises env then (Inl OSError, w) else (Inr (path, fname), create_file path w))"

definition upload_local_image :: "env \<Rightarrow> string \<Rightarrow> world \<Rightarrow> (exn + string) \<times> world" where
  "upload_local_image env path w =
     (case upload_name env path of
        None \<Rightarrow> (Inl (OtherError ''upload_file''), w)
      | Some n \<Rightarrow> (Inr n, w\<lparr>remote_files := remote_files w @ [n]\<rparr>))"

text \<open>\<^verbatim>\<open>f"right_{i+1:02d}_{uuid.uuid4().hex[:6]}.jpg"\<close> in the upload folder, for row \<open>i\<close> of 0..9.\<close>

definition crop_path :: "env \<Rightarrow> nat \<Rightarrow> string" where
  "crop_path env i =
     ''uploads/right_'' @ [char_of (48 + (i + 1) div 10), char_of (48 + (i + 1) mod 10)]
       @ ''_'' @ crop_uid env i @ ''.jpg''"

definition sprite_path :: "env \<Rightarrow> string" where
  "sprite_path env = ''uploads/sprite_right_'' @ sprite_uid env @ ''.jpg''"

text \<open>The files \<^verbatim>\<open>build_right_only_sprite\<close> writes: one per row, in order, then the sprite.\<close>

fun save_rows :: "env \<Rightarrow> nat list \<Rightarrow> string list \<Rightarrow> world \<Rightarrow> (exn + string list) \<times> world" where
  "save_rows env [] right_crops w = (Inr right_crops, w)"
| "save_rows env (i # rows) right_crops w =
     (if sprite_raises_at env = Some i then (Inl (OtherError ''Pillow''), w)
      else save_rows env rows (right_crops @ [crop_path env i]) (create_file (crop_path env i) w))"

definition build_right_only_sprite_files ::
    "env \<Rightarrow> world \<Rightarrow> (exn + string \<times> string list) \<times> world" where
  "build_right_only_sprite_files env w =
     (case save_rows env [0..<10] [] w of
        (Inl e, w1) \<Rightarrow> (Inl e, w1)
      | (Inr right_crops, w1) \<Rightarrow>
          if sprite_raises_at env = Some 10 then (Inl (OtherError ''Pillow''), w1)
          else (Inr (sprite_path env, right_crops), create_file (sprite_path env) w1))"

text \<open>
  The \<^verbatim>\<open>try\<close> block of \<^verbatim>\<open>api_contar\<close>. An exception leaves the block at once, with the
  world as it is at that point; the clean-up is the last thing before the \<^verbatim>\<open>return\<close>.
\<close>

definition contar_body ::
    "(string \<Rightarrow> exn + json) \<Rightarrow> env \<Rightarrow> string \<Rightarrow> world \<Rightarrow> (exn + response) \<times> world" where
  "contar_body loads env filename w0 =
     (case save_uploaded_file env filename w0 of
        (Inl e, w1) \<Rightarrow> (Inl e, w1)
      | (Inr (path, fname), w1) \<Rightarrow>
      (case image_size env of
        None \<Rightarrow> (Inl OSError, w1)
      | Some im \<Rightarrow>
      (case build_right_only_sprite_files env w1 of
        (Inl e, w2) \<Rightarrow> (Inl e, w2)
      | (Inr (sprite, crop_paths), w2) \<Rightarrow>
      (case upload_local_image env path w2 of
        (Inl e, w3) \<Rightarrow> (Inl e, w3)
      | (Inr up_orig, w3) \<Rightarrow>
      (case upload_local_image env sprite w3 of
        (Inl e, w4) \<Rightarrow> (Inl e, w4)
      | (Inr up_sprite, w4) \<Rightarrow>
      (case reply env of
        Inl e \<Rightarrow> (Inl e, w4)
      | Inr resp_text \<Rightarrow>
      (case gemini_generate_json loads resp_text of
        Inl e \<Rightarrow> (Inl e, w4)
      | Inr result \<Rightarrow>
      (case counts_of_result result of
        Inl e \<Rightarrow> (Inl e, w4)
      | Inr counts \<Rightarrow>
          let w5 = foldl (delete_file env) w4 [up_orig, up_sprite];
              w6 = foldl (os_remove env) w5 (path # sprite # crop_paths)
          in (Inr (Response200 counts result), w6)))))))))"

definition api_contar ::
    "(string \<Rightarrow> exn + json) \<Rightarrow> env \<Rightarrow> request \<Rightarrow> world \<Rightarrow> response \<times> world" where
  "api_contar loads env req w =
     (case req of
        NoImage \<Rightarrow> (Response400 ''Nenhuma imagem enviada'', w)
      | Image filename \<Rightarrow>
          if filename = [] then (Response400 ''Nenhuma imagem selecionada'', w)
          else
            (case contar_body loads env filename w of
               (Inr r, w') \<Rightarrow> (r, w')
             | (Inl e, w') \<Rightarrow> (Response500 e, w')))"

subsection \<open>Three requests\<close>

text \<open>
  An environment in which every outside call succeeds and the model answers with a
  well-formed reply; then the same with an upload that is not an image, and with a model
  call that times out.
\<close>

definition good_env :: env where
  "good_env =
     \<lparr>secure_filename = (\<lambda>n. n), uid = ''0a1b2c3d'', crop_uid = (\<lambda>i. ''c0ffee''),
      sprite_uid = ''5e6f7a8b'', save_raises = False, image_size = Some (1000, 101),
      sprite_raises_at = None, upload_name = (\<lambda>p. Some (''files/'' @ p)),
      reply = Inr (Some ''{\"contagem\": {\"aerosaculite\": 3}}''),
      delete_file_raises = (\<lambda>n. False), remove_raises = (\<lambda>p. False)\<rparr>"

definition not_an_image_env :: env where
  "not_an_image_env = good_env\<lparr>image_size := None\<rparr>"

definition timeout_env :: env where
  "timeout_env = good_env\<lparr>reply := Inl (OtherError ''DeadlineExceeded'')\<rparr>"

definition empty_world :: world where
  "empty_world = \<lparr>local_files = [], remote_files = []\<rparr>"

section \<open>Properties of the counts normalisation\<close>

text \<open>The loop writes each label once, in the order of \<open>LINES\<close>.\<close>

lemma normalize_counts_map_eq:
  "normalize_counts_map raw = map (\<lambda>k. (k, normalize_value raw k)) LINES"
  unfolding normalize_counts_map_def LINES_def dict_set_def
  by simp

lemma normalize_value_range: "0 \<le> normalize_value raw k \<and> normalize_value raw k \<le> 10"
  unfolding normalize_value_def by (simp add: Let_def)

lemma distinct_LINES: "distinct LINES"
  unfolding LINES_def by simp

lemma length_LINES: "length LINES = 10"
  unfolding LINES_def by simp


text \<open>
  Claim C1. Whatever dictionary comes in (values of any JSON kind, keys missing or
  extra), the result has exactly the ten labels as keys, in the order of \<open>LINES\<close>,
  and every value is an integer between 0 and 10.
\<close>

theorem normalize_counts_map_schema:
  "map fst (normalize_counts_map raw) = LINES \<and> distinct LINES \<and> length LINES = 10 \<and>
   (\<forall>(k, v) \<in> set (normalize_counts_map raw). 0 \<le> v \<and> v \<le> 10)"
  by (auto simp: normalize_counts_map_eq distinct_LINES length_LINES normalize_value_range comp_def)

theorem normalize_counts_map_schema_witness:
  "(''celulite'', 10) \<in> set (normalize_counts_map [(''celulite'', JInt 15), (''bogus'', JStr ''x'')]) \<and>
   map fst (normalize_counts_map [(''celulite'', JInt 15), (''bogus'', JStr ''x'')]) = LINES \<and>
   (0::int) \<le> 10 \<and> (10::int) \<le> 10"
  using normalize_counts_map_schema [of "[(''celulite'', JInt 15), (''bogus'', JStr ''x'')]"]
  by (simp add: normalize_counts_map_eq normalize_value_def dict_get_def LINES_def)

subsection \<open>Clamping and coercion\<close>







subsection \<open>Replies that already satisfy the schema\<close>

lemma valid_countE: "valid_count v \<Longrightarrow> \<exists>n. v = JInt n \<and> 0 \<le> n \<and> n \<le> 10"
  by (cases v) auto

lemma normalize_value_valid:
  assumes "map_of raw k = Some v" and "valid_count v"
  shows "JInt (normalize_value raw k) = v"
  using valid_countE [OF assms(2)] assms(1)
  by (auto simp: normalize_value_def dict_get_def)

lemma map_of_counts_to_json:
  "map_of (counts_to_json (map (\<lambda>k. (k, f k)) ks)) k =
     (if k \<in> set ks then Some (JInt (f k)) else None)"
  by (induction ks) (auto simp: counts_to_json_def)

text \<open>Normalising twice is normalising once, for every input.\<close>

lemma normalize_counts_map_twice:
  "normalize_counts_map (counts_to_json (normalize_counts_map raw)) = normalize_counts_map raw"
proof -
  let ?out = "counts_to_json (normalize_counts_map raw)"
  have h: "normalize_value ?out k = normalize_value raw k" if "k \<in> set LINES" for k
    using that normalize_value_range [of raw k]
    by (simp add: normalize_value_def dict_get_def normalize_counts_map_eq map_of_counts_to_json)
  have "normalize_counts_map ?out = map (\<lambda>k. (k, normalize_value ?out k)) LINES"
    by (rule normalize_counts_map_eq)
  also have "\<dots> = map (\<lambda>k. (k, normalize_value raw k)) LINES"
    using h by (intro map_cong) auto
  also have "\<dots> = normalize_counts_map raw"
    by (simp add: normalize_counts_map_eq)
  finally show ?thesis .
qed

text \<open>
  Claim C9. A \<^verbatim>\<open>contagem\<close> object that already satisfies the schema (exactly the ten
  labels, each an integer in 0..10) comes back with the same value under every key:
  the result, read as a dictionary, equals the input.
\<close>

theorem normalize_idempotent:
  assumes "schema_ok raw"
  shows "map_of (counts_to_json (normalize_counts_map raw)) = map_of raw"
proof
  fix k
  show "map_of (counts_to_json (normalize_counts_map raw)) k = map_of raw k"
  proof (cases "k \<in> set LINES")
    case True
    with assms have "k \<in> fst ` set raw"
      by (simp add: schema_ok_def)
    then obtain v where v: "map_of raw k = Some v"
      by (metis map_of_eq_None_iff not_Some_eq)
    then have "(k, v) \<in> set raw"
      by (rule map_of_SomeD)
    with assms have "valid_count v"
      by (auto simp: schema_ok_def list_all_iff)
    with v True show ?thesis
      by (simp add: normalize_counts_map_eq map_of_counts_to_json normalize_value_valid)
  next
    case False
    with assms have "k \<notin> fst ` set raw"
      by (simp add: schema_ok_def)
    then have "map_of raw k = None"
      by (simp add: map_of_eq_None_iff)
    with False show ?thesis
      by (simp add: normalize_counts_map_eq map_of_counts_to_json)
  qed
qed

theorem normalize_idempotent_witness:
  "schema_ok [(''tuberculose'', JInt 9), (''aerosaculite'', JInt 0), (''celulite'', JInt 1),
      (''contusao'', JInt 2), (''hematomas'', JInt 3), (''hepatite'', JInt 4),
      (''micoplasmose'', JInt 5), (''pericardite'', JInt 6), (''peritonite'', JInt 7),
      (''salmonelose'', JInt 10)] \<and>
   map_of (counts_to_json (normalize_counts_map
     [(''tuberculose'', JInt 9), (''aerosaculite'', JInt 0), (''celulite'', JInt 1),
      (''contusao'', JInt 2), (''hematomas'', JInt 3), (''hepatite'', JInt 4),
      (''micoplasmose'', JInt 5), (''pericardite'', JInt 6), (''peritonite'', JInt 7),
      (''salmonelose'', JInt 10)])) ''tuberculose'' = Some (JInt 9)"
proof -
  let ?raw = "[(''tuberculose'', JInt 9), (''aerosaculite'', JInt 0), (''celulite'', JInt 1),
      (''contusao'', JInt 2), (''hematomas'', JInt 3), (''hepatite'', JInt 4),
      (''micoplasmose'', JInt 5), (''pericardite'', JInt 6), (''peritonite'', JInt 7),
      (''salmonelose'', JInt 10)]"
  have ok: "schema_ok ?raw"
    by code_simp
  have "map_of (counts_to_json (normalize_counts_map ?raw)) ''tuberculose''
          = map_of ?raw ''tuberculose''"
    using normalize_idempotent [OF ok] by (rule fun_cong)
  also have "\<dots> = Some (JInt 9)"
    by simp
  finally show ?thesis
    using ok by blast
qed

section \<open>Properties of the sprite geometry\<close>

subsection \<open>Rounding to binary64\<close>

text \<open>
  Rounding never crosses a value that is itself a multiple of the unit in the last place:
  this is all the geometry needs from binary64.
\<close>

lemma round_half_even_cases: "round_half_even x = \<lfloor>x\<rfloor> \<or> (round_half_even x = \<lfloor>x\<rfloor> + 1 \<and> of_int \<lfloor>x\<rfloor> < x)"
  unfolding round_half_even_def Let_def by (auto simp: not_less) 

lemma round_half_even_ge: "of_int m \<le> x \<Longrightarrow> m \<le> round_half_even x"
proof -
  assume "of_int m \<le> x"
  then have "m \<le> \<lfloor>x\<rfloor>" by (simp add: le_floor_iff)
  with round_half_even_cases [of x] show ?thesis by linarith
qed

lemma round_half_even_le: "x \<le> of_int m \<Longrightarrow> round_half_even x \<le> m"
proof -
  assume le: "x \<le> of_int m"
  then have f: "\<lfloor>x\<rfloor> \<le> m" by (simp add: floor_le_iff)
  from round_half_even_cases [of x] show ?thesis
  proof
    assume "round_half_even x = \<lfloor>x\<rfloor>" with f show ?thesis by simp
  next
    assume a: "round_half_even x = \<lfloor>x\<rfloor> + 1 \<and> of_int \<lfloor>x\<rfloor> < x"
    with le have "(of_int \<lfloor>x\<rfloor> :: rat) < of_int m" by linarith
    then have "\<lfloor>x\<rfloor> < m" by simp
    with a show ?thesis by simp
  qed
qed

lemma bit_length_le: "n < 2 ^ k \<Longrightarrow> bit_length n \<le> int k"
proof (induction k arbitrary: n)
  case 0
  then show ?case by (simp add: bit_length.simps)
next
  case (Suc k)
  show ?case
  proof (cases "n \<le> 0")
    case True
    then show ?thesis by (simp add: bit_length.simps)
  next
    case False
    from Suc.prems have "n div 2 < 2 ^ k" by simp
    then have "bit_length (n div 2) \<le> int k" by (rule Suc.IH)
    with False show ?thesis by (subst bit_length.simps) simp
  qed
qed

lemma ilog2_le:
  assumes "0 < x" and "x < 2 ^ Suc n"
  shows "ilog2 x \<le> int n"
proof (cases "1 \<le> x")
  case True
  have "\<lfloor>x\<rfloor> < 2 ^ Suc n"
    using assms(2) by (simp add: floor_less_iff)
  then have "bit_length \<lfloor>x\<rfloor> \<le> int (Suc n)"
    by (rule bit_length_le)
  with True show ?thesis
    by (simp add: ilog2_def)
next
  case False
  have "0 \<le> bit_length m" for m
    by (induction m rule: bit_length.induct) (subst bit_length.simps, simp)
  then have "- bit_length (\<lceil>1 / x\<rceil> - 1) \<le> 0"
    by simp
  also have "0 \<le> int n"
    by simp
  finally show ?thesis
    using False by (simp add: ilog2_def)
qed

text \<open>The unit in the last place of a positive value below \<open>2 ^ (n + 1)\<close> divides \<open>2 ^ n / 2 ^ 52\<close>.\<close>

lemma fl_grid:
  assumes x: "0 < x" "x < 2 ^ Suc n" and n: "n \<le> 52"
  shows "of_int a / 2 ^ (52 - n) \<le> x \<Longrightarrow> of_int a / 2 ^ (52 - n) \<le> fl x"
    and "x \<le> of_int a / 2 ^ (52 - n) \<Longrightarrow> fl x \<le> of_int a / 2 ^ (52 - n)"
proof -
  define e where "e = max (ilog2 \<bar>x\<bar>) (- 1022)"
  define k where "k = nat (52 - e)"
  define u where "u = pow2 (e - 52)"
  have e_le: "e \<le> int n"
    using ilog2_le [OF x] x(1) by (simp add: e_def)
  then have k_ge: "52 - n \<le> k"
    using n by (simp add: k_def)
  have u_eq: "u = 1 / 2 ^ k"
    using e_le n by (simp add: u_def pow2_def k_def) 
  have fl_eq: "fl x = of_int (round_half_even (x / u)) * u"
    using x(1) by (simp add: fl_def Let_def e_def u_def)
  define M where "M = a * 2 ^ (k - (52 - n))"
  have g: "of_int a / 2 ^ (52 - n) = of_int M * u"
  proof -
    have "(2::rat) ^ k = 2 ^ (k - (52 - n)) * 2 ^ (52 - n)"
      using k_ge by (simp flip: power_add)
    then show ?thesis
      by (simp add: M_def u_eq field_simps)
  qed
  have upos: "0 < u" by (simp add: u_eq)
  {
    assume "of_int a / 2 ^ (52 - n) \<le> x"
    then have "of_int M \<le> x / u"
      using upos by (simp add: g pos_le_divide_eq)
    then have "M \<le> round_half_even (x / u)" by (rule round_half_even_ge)
    then have "of_int M * u \<le> of_int (round_half_even (x / u)) * u"
      using upos by simp
    then show "of_int a / 2 ^ (52 - n) \<le> fl x" by (simp add: g fl_eq)
  }
  {
    assume "x \<le> of_int a / 2 ^ (52 - n)"
    then have "x / u \<le> of_int M"
      using upos by (simp add: g pos_divide_le_eq)
    then have "round_half_even (x / u) \<le> M" by (rule round_half_even_le)
    then have "of_int (round_half_even (x / u)) * u \<le> of_int M * u"
      using upos by simp
    then show "fl x \<le> of_int a / 2 ^ (52 - n)" by (simp add: g fl_eq)
  }
qed

lemma fl_zero: "fl 0 = 0" by (simp add: fl_def)

lemma float_of_int_exact:
  assumes "0 \<le> h" "h < 2 ^ 53"
  shows "float_of_int h = of_int h"
proof (cases "h = 0")
  case True then show ?thesis by (simp add: float_of_int_def fl_zero)
next
  case False
  with assms have x: "(0::rat) < of_int h" "(of_int h :: rat) < 2 ^ Suc 52"
    by simp_all
  from fl_grid [OF x, of h] show ?thesis
    by (simp add: float_of_int_def)
qed

lemma floor_fl_between:
  assumes "0 \<le> x" "x < 2 ^ 32" "of_int N \<le> x" "x \<le> of_int M + 1 - 1 / 2 ^ 21"
  shows "N \<le> \<lfloor>fl x\<rfloor> \<and> \<lfloor>fl x\<rfloor> \<le> M"
proof (cases "x = 0")
  case True
  with assms have "N \<le> 0"  by simp
  moreover from True assms(4) have "(-1 :: rat) < of_int M" by simp 
  then have "-1 < M" by (metis of_int_less_iff of_int_minus of_int_1)
  ultimately show ?thesis using True by (simp add: fl_zero)
next
  case False
  with assms have x: "0 < x" "x < 2 ^ Suc 31" by simp_all
  have lo: "of_int N \<le> fl x"
    using fl_grid(1) [OF x, of "N * 2 ^ 21"] assms(3) by simp
  have "of_int M + 1 - 1 / 2 ^ 21 = (of_int ((M + 1) * 2 ^ 21 - 1) :: rat) / 2 ^ (52 - 31)"
    by (simp add: field_simps)
  with fl_grid(2) [OF x, of "(M + 1) * 2 ^ 21 - 1"] assms(4)
  have "fl x \<le> of_int M + 1 - 1 / 2 ^ 21" by simp
  then have hi: "fl x < of_int M + 1" by (simp add: less_le_trans [OF _ order_refl]) 
  from lo hi show ?thesis by (simp add: le_floor_iff floor_less_iff) linarith
qed


lemma TOP_RATIO_eq: "TOP_RATIO = 5764607523034235 / 72057594037927936"
  by code_simp

lemma one_minus_BOTTOM_RATIO_eq: "fsub (float_of_int 1) BOTTOM_RATIO = 8286623314361713 / 9007199254740992"
  by code_simp

lemma shifted_center_eq: "fsub (fl (1 / 2)) CENTER_SHIFT_PCT = 4188347653454561 / 9007199254740992"
  by code_simp

lemma RIGHT_FRACTION_eq: "RIGHT_FRACTION = 2476979795053773 / 4503599627370496"
  by code_simp

lemma trunc_nonneg: "0 \<le> q \<Longrightarrow> trunc q = \<lfloor>q\<rfloor>"
  by (simp add: trunc_def)

lemma fl_nonneg: "0 \<le> x \<Longrightarrow> 0 \<le> fl x"
  by (cases "x = 0") (simp_all add: fl_def Let_def pow2_def round_half_even_ge)

lemma int_small: "0 \<le> h \<Longrightarrow> h < 2 ^ 31 \<Longrightarrow> float_of_int h = of_int h \<and> (0::rat) \<le> of_int h \<and> (of_int h :: rat) < 2 ^ 31"
  using float_of_int_exact [of h] by simp

lemma divmod_rat:
  fixes a h d :: int
  assumes "0 < d"
  obtains r :: int where "of_int a * (of_int h :: rat) = of_int d * of_int ((a * h) div d) + of_int r"
    and "(0::rat) \<le> of_int r" and "(of_int r :: rat) \<le> of_int d - 1"
proof -
  let ?r = "(a * h) mod d"
  have "a * h = d * ((a * h) div d) + ?r"
    by (simp only: mult_div_mod_eq)
  then have "(of_int (a * h) :: rat) = of_int (d * ((a * h) div d) + ?r)"
    by (simp only:)
  then have 1: "of_int a * (of_int h :: rat) = of_int d * of_int ((a * h) div d) + of_int ?r"
    by (simp only: of_int_add of_int_mult)
  have "0 \<le> ?r" "?r \<le> d - 1"
    using assms pos_mod_bound [of d "a * h"] by simp_all
  then have 2: "(0::rat) \<le> of_int ?r" "(of_int ?r :: rat) \<le> of_int d - 1"
    by (simp, metis of_int_le_iff of_int_diff of_int_1)
  from 1 2 that show thesis by blast
qed

lemma trimmed_top_eq:
  assumes "0 \<le> h" "h < 2 ^ 31"
  shows "trimmed_top h = (8 * h) div 100"
proof -
  define N where "N = (8 * h) div 100"
  obtain r :: int where eq: "of_int 8 * (of_int h :: rat) = of_int 100 * of_int N + of_int r"
    and r: "(0::rat) \<le> of_int r" "(of_int r :: rat) \<le> of_int 100 - 1"
    unfolding N_def by (rule divmod_rat [of 100 8 h]) simp
  note hb = int_small [OF assms]
  let ?x = "of_int h * (5764607523034235 / 72057594037927936 :: rat)"
  have x0: "0 \<le> ?x" using hb by simp
  have "N \<le> \<lfloor>fl ?x\<rfloor> \<and> \<lfloor>fl ?x\<rfloor> \<le> N"
    using hb eq r by (intro floor_fl_between) simp_all
  then have fl: "\<lfloor>fl ?x\<rfloor> = N" by simp
  have "trimmed_top h = trunc (fl ?x)"
    using hb by (simp add: trimmed_top_def fmul_def TOP_RATIO_eq)
  also have "\<dots> = \<lfloor>fl ?x\<rfloor>"
    using fl_nonneg [OF x0] by (rule trunc_nonneg)
  finally show ?thesis
    unfolding fl N_def .
qed

lemma trimmed_bot_eq:
  assumes "0 \<le> h" "h < 2 ^ 31"
  shows "trimmed_bot h = (92 * h) div 100"
proof -
  define N where "N = (92 * h) div 100"
  obtain r :: int where eq: "of_int 92 * (of_int h :: rat) = of_int 100 * of_int N + of_int r"
    and r: "(0::rat) \<le> of_int r" "(of_int r :: rat) \<le> of_int 100 - 1"
    unfolding N_def by (rule divmod_rat [of 100 92 h]) simp
  note hb = int_small [OF assms]
  let ?x = "of_int h * (8286623314361713 / 9007199254740992 :: rat)"
  have x0: "0 \<le> ?x" using hb by simp
  have "N \<le> \<lfloor>fl ?x\<rfloor> \<and> \<lfloor>fl ?x\<rfloor> \<le> N"
    using hb eq r by (intro floor_fl_between) simp_all
  then have fl: "\<lfloor>fl ?x\<rfloor> = N" by simp
  have "trimmed_bot h = trunc (fl ?x)"
    using hb by (simp add: trimmed_bot_def fmul_def one_minus_BOTTOM_RATIO_eq)
  also have "\<dots> = \<lfloor>fl ?x\<rfloor>"
    using fl_nonneg [OF x0] by (rule trunc_nonneg)
  finally show ?thesis
    unfolding fl N_def .
qed

subsection \<open>The products of the sprite builder, as integer arithmetic\<close>

lemma right_part_eq:
  assumes "0 \<le> w" "w < 2 ^ 31"
  shows "trunc (fmul (float_of_int w) RIGHT_FRACTION) = (55 * w) div 100"
proof -
  define N where "N = (55 * w) div 100"
  obtain r :: int where eq: "of_int 55 * (of_int w :: rat) = of_int 100 * of_int N + of_int r"
    and r: "(0::rat) \<le> of_int r" "(of_int r :: rat) \<le> of_int 100 - 1"
    unfolding N_def by (rule divmod_rat [of 100 55 w]) simp
  note hb = int_small [OF assms]
  let ?x = "of_int w * (2476979795053773 / 4503599627370496 :: rat)"
  have x0: "0 \<le> ?x" using hb by simp
  have "N \<le> \<lfloor>fl ?x\<rfloor> \<and> \<lfloor>fl ?x\<rfloor> \<le> N"
    using hb eq r by (intro floor_fl_between) simp_all
  then have fl: "\<lfloor>fl ?x\<rfloor> = N" by simp
  have "trunc (fmul (float_of_int w) RIGHT_FRACTION) = trunc (fl ?x)"
    using hb by (simp add: fmul_def RIGHT_FRACTION_eq)
  also have "\<dots> = \<lfloor>fl ?x\<rfloor>"
    using fl_nonneg [OF x0] by (rule trunc_nonneg)
  finally show ?thesis
    unfolding fl N_def .
qed

lemma shifted_center_bounds:
  assumes "0 \<le> w" "w < 2 ^ 31"
  defines "c \<equiv> trunc (fmul (float_of_int w) (fsub (fl (1 / 2)) CENTER_SHIFT_PCT))"
  shows "(465 * w) div 1000 - 1 \<le> c" and "c \<le> (465 * w) div 1000" and "0 \<le> c"
proof -
  define N where "N = (465 * w) div 1000"
  obtain r :: int where eq: "of_int 465 * (of_int w :: rat) = of_int 1000 * of_int N + of_int r"
    and r: "(0::rat) \<le> of_int r" "(of_int r :: rat) \<le> of_int 1000 - 1"
    unfolding N_def by (rule divmod_rat [of 1000 465 w]) simp
  note hb = int_small [OF assms(1,2)]
  let ?x = "of_int w * (4188347653454561 / 9007199254740992 :: rat)"
  have x0: "0 \<le> ?x" using hb by simp
  have "N - 1 \<le> \<lfloor>fl ?x\<rfloor> \<and> \<lfloor>fl ?x\<rfloor> \<le> N"
    using hb eq r by (intro floor_fl_between) simp_all
  moreover have "c = trunc (fl ?x)"
    using hb by (simp add: c_def fmul_def shifted_center_eq)
  moreover have "trunc (fl ?x) = \<lfloor>fl ?x\<rfloor>"
    using fl_nonneg [OF x0] by (rule trunc_nonneg)
  moreover have "0 \<le> \<lfloor>fl ?x\<rfloor>"
    using fl_nonneg [OF x0] by simp
  ultimately show "(465 * w) div 1000 - 1 \<le> c" and "c \<le> (465 * w) div 1000" and "0 \<le> c"
    unfolding N_def by simp_all
qed

lemma upto_0_9: "[0..9] = [0, 1, 2, 3, 4, 5, 6, 7, 8, 9 :: int]"
  by code_simp

lemma bands_eq:
  "bands (build_right_only_sprite w h) =
     map (row_band w (top (build_right_only_sprite w h)) (bot (build_right_only_sprite w h))
            (band_h (build_right_only_sprite w h))) [0, 1, 2, 3, 4, 5, 6, 7, 8, 9]"
  by (simp only: build_right_only_sprite_def Let_def sprite_geometry.simps upto_0_9)



lemma length_bands: "length (bands (build_right_only_sprite w h)) = 10"
  unfolding bands_eq by simp


lemma fallback_iff:
  assumes "0 \<le> h" "h < 2 ^ 31"
  shows "trimmed_bot h \<le> trimmed_top h + 10 \<longleftrightarrow> h \<le> 11 \<or> h = 13"
proof (cases "14 \<le> h")
  case True
  define a where "a = (92 * h) div 100"
  define b where "b = (8 * h) div 100"
  have "92 * h = 100 * a + (92 * h) mod 100"
    unfolding a_def by (simp only: mult_div_mod_eq)
  moreover have "(92 * h) mod 100 < 100"
    by simp
  moreover have "8 * h = 100 * b + (8 * h) mod 100"
    unfolding b_def by (simp only: mult_div_mod_eq)
  moreover have "0 \<le> (8 * h) mod 100"
    by simp
  ultimately have "\<not> a \<le> b + 10" using True by linarith
  with True show ?thesis
    unfolding trimmed_top_eq [OF assms] trimmed_bot_eq [OF assms] a_def b_def by linarith
next
  case False
  with assms(1) have "h = 0 \<or> h = 1 \<or> h = 2 \<or> h = 3 \<or> h = 4 \<or> h = 5 \<or> h = 6 \<or> h = 7 \<or> h = 8
      \<or> h = 9 \<or> h = 10 \<or> h = 11 \<or> h = 12 \<or> h = 13" by presburger
  then show ?thesis
    unfolding trimmed_top_eq [OF assms] trimmed_bot_eq [OF assms]
    by (elim disjE) simp_all
qed






lemma row_band_fields:
  "center_x (row_band w tp bt bh i) =
     max 0 (min (w - 1) (trunc (fmul (float_of_int w) (fsub (fl (1 / 2)) CENTER_SHIFT_PCT))))"
  "right_x0 (row_band w tp bt bh i) =
     min (max 0 (w - trunc (fmul (float_of_int w) RIGHT_FRACTION))) (center_x (row_band w tp bt bh i))"
  "right_box (row_band w tp bt bh i) =
     (right_x0 (row_band w tp bt bh i), 0, w, y2 (row_band w tp bt bh i) - y1 (row_band w tp bt bh i))"
  by (simp_all add: row_band_def Let_def)

lemma right_start: "w - (55 * w) div 100 = - ((- 45 * w) div 100)" for w :: int
proof -
  have "55 * w = - 45 * w + w * 100" by simp
  then have "(55 * w) div 100 = (- 45 * w + w * 100) div 100" by (simp only:)
  also have "\<dots> = w + (- 45 * w) div 100" by (rule div_mult_self1) simp
  finally show ?thesis by linarith
qed

text \<open>
  Claim C8. In every band the right crop starts at 45% of \<open>W\<close> from the left (rounded
  up to a pixel, so that it spans the last 55% of the width rounded down), unless that
  lies beyond the shifted centre, 46.5% of \<open>W\<close> rounded down (or one pixel less, where
  the binary64 product falls just below a whole number); then it starts at the shifted
  centre. The crop runs from there to the full width \<open>W\<close>, over the height of the band.
\<close>

theorem right_crop_start:
  assumes "0 \<le> w" and "w < 2 ^ 31" and "b \<in> set (bands (build_right_only_sprite w h))"
  shows "right_x0 b = min (- ((- 45 * w) div 100)) (center_x b) \<and>
         (465 * w) div 1000 - 1 \<le> center_x b \<and> center_x b \<le> (465 * w) div 1000 \<and>
         0 \<le> center_x b \<and>
         right_box b = (right_x0 b, 0, w, y2 b - y1 b)"
proof -
  from assms(3) obtain tp bt bh i where b: "b = row_band w tp bt bh i"
    unfolding bands_eq by auto
  define c where "c = trunc (fmul (float_of_int w) (fsub (fl (1 / 2)) CENTER_SHIFT_PCT))"
  have cb: "(465 * w) div 1000 - 1 \<le> c" "c \<le> (465 * w) div 1000" "0 \<le> c"
    unfolding c_def by (rule shifted_center_bounds [OF assms(1,2)])+
  have "(465 * w) div 1000 \<le> w - 1 \<or> w = 0"
    using assms(1) by linarith
  with cb have cx: "center_x b = c"
    unfolding b row_band_fields c_def [symmetric] by auto
  have "0 \<le> w - (55 * w) div 100"
    using assms(1) by linarith
  then have "right_x0 b = min (w - (55 * w) div 100) (center_x b)"
    unfolding b row_band_fields(2) right_part_eq [OF assms(1,2)] by simp
  then have rx: "right_x0 b = min (- ((- 45 * w) div 100)) (center_x b)"
    by (simp only: right_start)
  have rb: "right_box b = (right_x0 b, 0, w, y2 b - y1 b)"
    unfolding b by (rule row_band_fields)
  from rx cb rb show ?thesis
    unfolding cx by blast
qed

theorem right_crop_start_witness:
  "(0::int) \<le> 1000 \<and> (1000::int) < 2 ^ 31 \<and>
   bands (build_right_only_sprite 1000 101) ! 0 \<in> set (bands (build_right_only_sprite 1000 101)) \<and>
   right_x0 (bands (build_right_only_sprite 1000 101) ! 0) = 450 \<and>
   464 \<le> center_x (bands (build_right_only_sprite 1000 101) ! 0)"
proof -
  have w: "(0::int) \<le> 1000" "(1000::int) < 2 ^ 31"
    by simp_all
  have m: "bands (build_right_only_sprite 1000 101) ! 0 \<in> set (bands (build_right_only_sprite 1000 101))"
    by (rule nth_mem) (simp add: length_bands)
  from right_crop_start [OF w m] w m show ?thesis
    by simp
qed

section \<open>Properties of the reply parsing\<close>

subsection \<open>The fenced reply\<close>

lemma scenario_clean:
  "clean_text (Some ''Here is your answer: ```json {\"contagem\": {\"aerosaculite\": 3}} ``` '')
     = ''Here is your answer:  {\"contagem\": {\"aerosaculite\": 3}}''"
  by code_simp

lemma scenario_strict:
  "json_loads ''Here is your answer:  {\"contagem\": {\"aerosaculite\": 3}}'' = Inl JSONDecodeError"
  by code_simp

lemma scenario_search:
  "re_search_braces ''Here is your answer:  {\"contagem\": {\"aerosaculite\": 3}}''
     = Some ''{\"contagem\": {\"aerosaculite\": 3}}''"
  by code_simp

lemma scenario_loads:
  "json_loads ''{\"contagem\": {\"aerosaculite\": 3}}''
     = Inr (JObj [(''contagem'', JObj [(''aerosaculite'', JInt 3)])])"
  by code_simp

lemma scenario_strip:
  "strip ''Here is your answer: ```json {\"contagem\": {\"aerosaculite\": 3}} ``` ''
     = ''Here is your answer: ```json {\"contagem\": {\"aerosaculite\": 3}} ```''"
  by code_simp

lemma scenario_clean':
  "clean_text (Some ''Here is your answer: ```json {\"contagem\": {\"aerosaculite\": 3}} ```'')
     = ''Here is your answer:  {\"contagem\": {\"aerosaculite\": 3}}''"
  by code_simp

lemma scenario_counts:
  "counts_of_result (JObj [(''contagem'', JObj [(''aerosaculite'', JInt 3)])])
     = Inr [(''aerosaculite'', 3), (''celulite'', 0), (''contusao'', 0), (''hematomas'', 0),
            (''hepatite'', 0), (''micoplasmose'', 0), (''pericardite'', 0), (''peritonite'', 0),
            (''salmonelose'', 0), (''tuberculose'', 0)]"
  by code_simp

text \<open>
  Claim C4. The reply \<^verbatim>\<open>Here is your answer: ```json {"contagem": {"aerosaculite": 3}} ``` \<close>
  loses its fence markers, fails the strict parse, and is recovered from its braces:
  the result holds \<^verbatim>\<open>{"aerosaculite": 3}\<close> under \<^verbatim>\<open>contagem\<close>, and the normalised counts
  are 3 for \<^verbatim>\<open>aerosaculite\<close> and 0 for the nine other labels.
\<close>

theorem malformed_model_text_scenario:
  "parse_json_safely json_loads
      (Some ''Here is your answer: ```json {\"contagem\": {\"aerosaculite\": 3}} ``` '')
     = Inr (JObj [(''contagem'', JObj [(''aerosaculite'', JInt 3)])]) \<and>
   gemini_generate_json json_loads
      (Some ''Here is your answer: ```json {\"contagem\": {\"aerosaculite\": 3}} ``` '')
     = Inr (JObj [(''contagem'', JObj [(''aerosaculite'', JInt 3)])]) \<and>
   dict_get [(''contagem'', JObj [(''aerosaculite'', JInt 3)])] ''contagem'' (JObj [])
     = JObj [(''aerosaculite'', JInt 3)] \<and>
   counts_of_result (JObj [(''contagem'', JObj [(''aerosaculite'', JInt 3)])])
     = Inr [(''aerosaculite'', 3), (''celulite'', 0), (''contusao'', 0), (''hematomas'', 0),
            (''hepatite'', 0), (''micoplasmose'', 0), (''pericardite'', 0), (''peritonite'', 0),
            (''salmonelose'', 0), (''tuberculose'', 0)]"
proof -
  have p: "parse_json_safely json_loads
      (Some ''Here is your answer: ```json {\"contagem\": {\"aerosaculite\": 3}} ``` '')
     = Inr (JObj [(''contagem'', JObj [(''aerosaculite'', JInt 3)])])"
    by (simp add: parse_json_safely_def scenario_clean scenario_strict scenario_search
        scenario_loads)
  have p': "parse_json_safely json_loads
      (Some ''Here is your answer: ```json {\"contagem\": {\"aerosaculite\": 3}} ```'')
     = Inr (JObj [(''contagem'', JObj [(''aerosaculite'', JInt 3)])])"
    by (simp add: parse_json_safely_def scenario_clean' scenario_strict scenario_search
        scenario_loads)
  have g: "gemini_generate_json json_loads
      (Some ''Here is your answer: ```json {\"contagem\": {\"aerosaculite\": 3}} ``` '')
     = Inr (JObj [(''contagem'', JObj [(''aerosaculite'', JInt 3)])])"
    by (simp add: gemini_generate_json_def scenario_strip p')
  have d: "dict_get [(''contagem'', JObj [(''aerosaculite'', JInt 3)])] ''contagem'' (JObj [])
     = JObj [(''aerosaculite'', JInt 3)]"
    by (simp add: dict_get_def)
  from p g d scenario_counts show ?thesis
    by (simp only: simp_thms)
qed

subsection \<open>Totality and the unparseable reply\<close>





text \<open>
  Claim C10. For every decoder and every input, \<open>None\<close> and the empty text included,
  \<^verbatim>\<open>parse_json_safely\<close> returns a value and raises nothing. What the strict parse
  recovers is returned as it is; when the strict parse fails and the braces give nothing
  (no match, or a match that does not parse), the result is the empty dictionary.
\<close>

theorem parse_json_safely_total:
  "(\<exists>v. parse_json_safely loads text = Inr v) \<and>
   (loads (clean_text text) = Inr v \<longrightarrow> parse_json_safely loads text = Inr v) \<and>
   (loads (clean_text text) = Inl e \<and>
    (re_search_braces (clean_text text) = None \<or>
     re_search_braces (clean_text text) = Some m \<and> loads m = Inl e')
      \<longrightarrow> parse_json_safely loads text = Inr (JObj []))"
  by (auto simp: parse_json_safely_def Let_def split: sum.splits option.splits)

lemma no_json_None:
  "json_loads (clean_text None) = Inl JSONDecodeError" "re_search_braces (clean_text None) = None"
  by code_simp+

lemma no_json_braces:
  "json_loads (clean_text (Some ''so {oops}'')) = Inl JSONDecodeError"
  "re_search_braces (clean_text (Some ''so {oops}'')) = Some ''{oops}''"
  "json_loads ''{oops}'' = Inl JSONDecodeError"
  by code_simp+

theorem parse_json_safely_total_witness:
  "json_loads (clean_text None) = Inl JSONDecodeError \<and>
   re_search_braces (clean_text None) = None \<and>
   parse_json_safely json_loads None = Inr (JObj []) \<and>
   json_loads (clean_text (Some ''so {oops}'')) = Inl JSONDecodeError \<and>
   re_search_braces (clean_text (Some ''so {oops}'')) = Some ''{oops}'' \<and>
   json_loads ''{oops}'' = Inl JSONDecodeError \<and>
   parse_json_safely json_loads (Some ''so {oops}'') = Inr (JObj [])"
  using parse_json_safely_total [of json_loads None JNull JSONDecodeError "[]" JSONDecodeError]
    parse_json_safely_total [of json_loads "Some ''so {oops}''" JNull JSONDecodeError "''{oops}''" JSONDecodeError]
    no_json_None no_json_braces
  by simp






section \<open>Properties of the request handler\<close>

subsection \<open>What each step does to the files\<close>

lemma local_files_create: "set (local_files (create_file p w)) = insert p (set (local_files w))"
  by (auto simp: create_file_def)

lemma remote_files_create: "remote_files (create_file p w) = remote_files w"
  by (simp add: create_file_def)

lemma save_rows_result:
  "save_rows env rows acc w = (Inr crops, w') \<Longrightarrow>
     crops = acc @ map (crop_path env) rows \<and>
     set (local_files w') = set (local_files w) \<union> set (map (crop_path env) rows) \<and>
     remote_files w' = remote_files w"
proof (induction rows arbitrary: acc w)
  case Nil
  then show ?case by simp
next
  case (Cons i rows)
  from Cons.prems have "sprite_raises_at env \<noteq> Some i"
    by (auto split: if_splits)
  with Cons.prems have
    "save_rows env rows (acc @ [crop_path env i]) (create_file (crop_path env i) w) = (Inr crops, w')"
    by simp
  from Cons.IH [OF this] show ?case
    by (auto simp: local_files_create remote_files_create)
qed

lemma save_rows_grows:
  "save_rows env rows acc w = (r, w') \<Longrightarrow>
     set (local_files w) \<subseteq> set (local_files w') \<and> remote_files w' = remote_files w"
proof (induction rows arbitrary: acc w)
  case Nil
  then show ?case by simp
next
  case (Cons i rows)
  show ?case
  proof (cases "sprite_raises_at env = Some i")
    case True
    with Cons.prems show ?thesis by simp
  next
    case False
    with Cons.prems have
      "save_rows env rows (acc @ [crop_path env i]) (create_file (crop_path env i) w) = (r, w')"
      by simp
    from Cons.IH [OF this] show ?thesis
      by (auto simp: local_files_create remote_files_create)
  qed
qed

lemma build_files_cases:
  assumes "save_rows env [0..<10] [] w = (r1, w1)"
  shows "build_right_only_sprite_files env w =
     (case r1 of
        Inl e \<Rightarrow> (Inl e, w1)
      | Inr right_crops \<Rightarrow>
          if sprite_raises_at env = Some 10 then (Inl (OtherError ''Pillow''), w1)
          else (Inr (sprite_path env, right_crops), create_file (sprite_path env) w1))"
  by (simp only: build_right_only_sprite_files_def assms prod.case)

lemma build_files_result:
  assumes "build_right_only_sprite_files env w = (Inr (sprite, crops), w')"
  shows "sprite = sprite_path env \<and> crops = map (crop_path env) [0..<10] \<and>
         set (local_files w') = set (local_files w) \<union> set (sprite # crops) \<and>
         remote_files w' = remote_files w"
proof -
  obtain r1 w1 where sr: "save_rows env [0..<10] [] w = (r1, w1)"
    by (cases "save_rows env [0..<10] [] w")
  note b = assms [unfolded build_files_cases [OF sr]]
  show ?thesis
  proof (cases r1)
    case (Inl e)
    with b show ?thesis by simp
  next
    case (Inr rc)
    with b have 2: "w' = create_file (sprite_path env) w1" and 3: "sprite = sprite_path env"
      and 4: "crops = rc"
      by (auto split: if_splits)
    from save_rows_result [OF sr [unfolded Inr]] have
      "rc = map (crop_path env) [0..<10]"
      "set (local_files w1) = set (local_files w) \<union> set (map (crop_path env) [0..<10])"
      "remote_files w1 = remote_files w"
      by (simp_all only: append_Nil) 
    with 2 3 4 show ?thesis
      by (simp only: local_files_create remote_files_create list.set) blast
  qed
qed

lemma build_files_grows:
  assumes "build_right_only_sprite_files env w = (r, w')"
  shows "set (local_files w) \<subseteq> set (local_files w')"
proof -
  obtain r1 w1 where sr: "save_rows env [0..<10] [] w = (r1, w1)"
    by (cases "save_rows env [0..<10] [] w")
  note b = assms [unfolded build_files_cases [OF sr]]
  from save_rows_grows [OF sr] have g: "set (local_files w) \<subseteq> set (local_files w1)"
    by blast
  from b have "w' = w1 \<or> w' = create_file (sprite_path env) w1"
    by (cases r1) (auto split: if_splits)
  with g show ?thesis
    by (auto simp only: local_files_create)
qed

lemma upload_local_files:
  "upload_local_image env p w = (r, w') \<Longrightarrow> local_files w' = local_files w"
  by (auto simp: upload_local_image_def split: option.splits)

lemma delete_file_local: "local_files (foldl (delete_file env) w ns) = local_files w"
  by (induction ns arbitrary: w) (auto simp: delete_file_def)

lemma os_remove_all:
  assumes "\<forall>p. \<not> remove_raises env p"
  shows "set (local_files (foldl (os_remove env) w ps)) = set (local_files w) - set ps"
  using assms
proof (induction ps arbitrary: w)
  case Nil
  then show ?case by simp
next
  case (Cons p ps)
  have "set (local_files (os_remove env w p)) = set (local_files w) - {p}"
    using Cons.prems by (auto simp: os_remove_def)
  with Cons.IH [OF Cons.prems, of "os_remove env w p"] show ?case
    by auto
qed

subsection \<open>Three requests, step by step\<close>

lemma reply_update_steps:
  "save_uploaded_file (e\<lparr>reply := r\<rparr>) n w = save_uploaded_file e n w"
  "build_right_only_sprite_files (e\<lparr>reply := r\<rparr>) w = build_right_only_sprite_files e w"
  "upload_local_image (e\<lparr>reply := r\<rparr>) p w = upload_local_image e p w"
  "image_size (e\<lparr>reply := r\<rparr>) = image_size e"
proof -
  have "save_rows (e\<lparr>reply := r\<rparr>) rows acc w' = save_rows e rows acc w'" for rows acc w'
    by (induction rows arbitrary: acc w') (simp_all add: crop_path_def)
  then show "build_right_only_sprite_files (e\<lparr>reply := r\<rparr>) w = build_right_only_sprite_files e w"
    by (simp add: build_right_only_sprite_files_def sprite_path_def split: prod.splits sum.splits)
qed (simp_all add: save_uploaded_file_def upload_local_image_def)

lemma image_update_steps:
  "save_uploaded_file (e\<lparr>image_size := r\<rparr>) n w = save_uploaded_file e n w"
  by (simp add: save_uploaded_file_def)

lemma good_save:
  "save_uploaded_file good_env ''a.jpg'' empty_world
     = (Inr (''uploads/0a1b2c3d_a.jpg'', ''0a1b2c3d_a.jpg''),
        \<lparr>local_files = [''uploads/0a1b2c3d_a.jpg''], remote_files = []\<rparr>)"
  by (simp add: save_uploaded_file_def Let_def good_env_def create_file_def empty_world_def)

lemma good_sprite:
  "build_right_only_sprite_files good_env
      \<lparr>local_files = [''uploads/0a1b2c3d_a.jpg''], remote_files = []\<rparr>
     = (Inr (''uploads/sprite_right_5e6f7a8b.jpg'',
             [''uploads/right_01_c0ffee.jpg'', ''uploads/right_02_c0ffee.jpg'',
              ''uploads/right_03_c0ffee.jpg'', ''uploads/right_04_c0ffee.jpg'',
              ''uploads/right_05_c0ffee.jpg'', ''uploads/right_06_c0ffee.jpg'',
              ''uploads/right_07_c0ffee.jpg'', ''uploads/right_08_c0ffee.jpg'',
              ''uploads/right_09_c0ffee.jpg'', ''uploads/right_10_c0ffee.jpg'']),
        \<lparr>local_files =
           [''uploads/0a1b2c3d_a.jpg'', ''uploads/right_01_c0ffee.jpg'',
            ''uploads/right_02_c0ffee.jpg'', ''uploads/right_03_c0ffee.jpg'',
            ''uploads/right_04_c0ffee.jpg'', ''uploads/right_05_c0ffee.jpg'',
            ''uploads/right_06_c0ffee.jpg'', ''uploads/right_07_c0ffee.jpg'',
            ''uploads/right_08_c0ffee.jpg'', ''uploads/right_09_c0ffee.jpg'',
            ''uploads/right_10_c0ffee.jpg'', ''uploads/sprite_right_5e6f7a8b.jpg''],
         remote_files = []\<rparr>)"
  by code_simp


lemma good_upload_orig:
  "upload_local_image good_env ''uploads/0a1b2c3d_a.jpg'' (w\<lparr>remote_files := []\<rparr>)
     = (Inr ''files/uploads/0a1b2c3d_a.jpg'', w\<lparr>remote_files := [''files/uploads/0a1b2c3d_a.jpg'']\<rparr>)"
  by (simp add: upload_local_image_def good_env_def)

lemma good_upload_sprite:
  "upload_local_image good_env ''uploads/sprite_right_5e6f7a8b.jpg''
      (w\<lparr>remote_files := [''files/uploads/0a1b2c3d_a.jpg'']\<rparr>)
     = (Inr ''files/uploads/sprite_right_5e6f7a8b.jpg'',
        w\<lparr>remote_files := [''files/uploads/0a1b2c3d_a.jpg'', ''files/uploads/sprite_right_5e6f7a8b.jpg'']\<rparr>)"
  by (simp add: upload_local_image_def good_env_def)

lemma good_reply:
  "gemini_generate_json json_loads (Some ''{\"contagem\": {\"aerosaculite\": 3}}'')
     = Inr (JObj [(''contagem'', JObj [(''aerosaculite'', JInt 3)])])"
  by code_simp


lemma timeout_body:
  "contar_body json_loads timeout_env ''a.jpg'' empty_world
     = (Inl (OtherError ''DeadlineExceeded''),
        \<lparr>local_files =
           [''uploads/0a1b2c3d_a.jpg'', ''uploads/right_01_c0ffee.jpg'',
            ''uploads/right_02_c0ffee.jpg'', ''uploads/right_03_c0ffee.jpg'',
            ''uploads/right_04_c0ffee.jpg'', ''uploads/right_05_c0ffee.jpg'',
            ''uploads/right_06_c0ffee.jpg'', ''uploads/right_07_c0ffee.jpg'',
            ''uploads/right_08_c0ffee.jpg'', ''uploads/right_09_c0ffee.jpg'',
            ''uploads/right_10_c0ffee.jpg'', ''uploads/sprite_right_5e6f7a8b.jpg''],
         remote_files =
           [''files/uploads/0a1b2c3d_a.jpg'', ''files/uploads/sprite_right_5e6f7a8b.jpg'']\<rparr>)"
proof -
  have r: "reply timeout_env = Inl (OtherError ''DeadlineExceeded'')"
    and i: "image_size good_env = Some (1000, 101)"
    by (simp_all add: timeout_env_def good_env_def)
  show ?thesis
    unfolding contar_body_def timeout_env_def reply_update_steps good_save
    using good_upload_orig [of "\<lparr>local_files = l, remote_files = []\<rparr>" for l]
      good_upload_sprite [of "\<lparr>local_files = l, remote_files = []\<rparr>" for l]
    by (simp add: i good_sprite r [unfolded timeout_env_def])
qed

lemma not_an_image_body:
  "contar_body json_loads not_an_image_env ''a.jpg'' empty_world
     = (Inl OSError, \<lparr>local_files = [''uploads/0a1b2c3d_a.jpg''], remote_files = []\<rparr>)"
  unfolding contar_body_def not_an_image_env_def image_update_steps good_save
  by simp

text \<open>
  Claim C6 asks that the saved upload, the sprite and the ten crops be gone when the
  response is returned, on the error path too. The clean-up of \<^verbatim>\<open>api_contar\<close> is the
  last statement of its \<^verbatim>\<open>try\<close> block and the \<^verbatim>\<open>except\<close> clause has none: an upload
  that is not an image is answered with status 500 and stays in the upload folder, and a
  model call that times out leaves all twelve files there, and both remote files.
\<close>

theorem api_contar_error_path_keeps_files:
  "api_contar json_loads not_an_image_env (Image ''a.jpg'') empty_world
     = (Response500 OSError, \<lparr>local_files = [''uploads/0a1b2c3d_a.jpg''], remote_files = []\<rparr>) \<and>
   api_contar json_loads timeout_env (Image ''a.jpg'') empty_world
     = (Response500 (OtherError ''DeadlineExceeded''),
        \<lparr>local_files =
           [''uploads/0a1b2c3d_a.jpg'', ''uploads/right_01_c0ffee.jpg'',
            ''uploads/right_02_c0ffee.jpg'', ''uploads/right_03_c0ffee.jpg'',
            ''uploads/right_04_c0ffee.jpg'', ''uploads/right_05_c0ffee.jpg'',
            ''uploads/right_06_c0ffee.jpg'', ''uploads/right_07_c0ffee.jpg'',
            ''uploads/right_08_c0ffee.jpg'', ''uploads/right_09_c0ffee.jpg'',
            ''uploads/right_10_c0ffee.jpg'', ''uploads/sprite_right_5e6f7a8b.jpg''],
         remote_files =
           [''files/uploads/0a1b2c3d_a.jpg'', ''files/uploads/sprite_right_5e6f7a8b.jpg'']\<rparr>)"
  by (simp add: api_contar_def timeout_body not_an_image_body)

end
